theory Spec2Isabelle
  imports Complex_Main "HOL-Library.Word" "HOL-Library.Signed_Division" "HOL-Library.Monad_Syntax"
    "HOL-Library.Log_Nat"
begin

unbundle bit_operations_syntax

section \<open>Sequential packing (sequential\_packing.h)\<close>

text \<open>
  A \<open>SequentialData\<close> struct is a size and a fixed array
  \<open>unsigned int value[SEQUENTIAL_DATA_MAX]\<close>. Every function of the header reads
  \<open>value[0 .. size-1]\<close> only and writes its result from index 0 upwards, so the
  struct is represented by the list of its first \<open>size\<close> values; the size field is
  the length of the list. A list longer than \<open>SEQUENTIAL_DATA_MAX\<close> stands for
  indices that lie outside the C array: the model keeps recording what the loops write
  there, so that the size the code computes stays visible.
\<close>

type_synonym uint = "32 word"

definition SEQUENTIAL_DATA_MAX :: nat where
  "SEQUENTIAL_DATA_MAX = 128000"

text \<open>\<open>Seq_set\<close>: stores the size and copies \<open>values[0 .. size-1]\<close>.\<close>

definition Seq_set :: "nat \<Rightarrow> uint list \<Rightarrow> uint list" where
  "Seq_set size_arg values = take size_arg values"

text \<open>
  One iteration of the loop of \<open>Seq_unpack\<close>, up to the test for \<open>break\<close>. The state
  is \<open>(packbyte, pos, values)\<close>; \<open>size\<close> is the length of \<open>values\<close>.
\<close>

definition unpack_step :: "uint \<Rightarrow> uint \<times> nat \<times> uint list \<Rightarrow> uint \<times> nat \<times> uint list" where
  "unpack_step c s =
     (case s of (packbyte, pos, values) \<Rightarrow>
        (if pos = 0 then (c, (pos + 1) AND 7, values)
         else (packbyte, (pos + 1) AND 7,
               values @ [if packbyte AND push_bit (pos - 1) 1 \<noteq> 0 then c OR 0x80 else c])))"

fun unpack_loop :: "uint list \<Rightarrow> uint \<times> nat \<times> uint list \<Rightarrow> uint \<times> nat \<times> uint list" where
  "unpack_loop [] s = s"
| "unpack_loop (c # rest) s =
     (let s' = unpack_step c s
      in if length (snd (snd s')) > SEQUENTIAL_DATA_MAX then s' else unpack_loop rest s')"

definition Seq_unpack :: "uint list \<Rightarrow> uint list" where
  "Seq_unpack packed =
     (case unpack_loop packed (0, 0, []) of
        (packbyte, pos, values) \<Rightarrow> Seq_set (length values) values)"

text \<open>
  One iteration of the loop of \<open>pack\<close> (declared as \<open>Seq_pack\<close>), up to the test for
  \<open>break\<close>. The state is \<open>(packbyte, pos, packet, values)\<close>; \<open>packet\<close> is the array
  \<open>int packet[7]\<close>.
\<close>

definition pack_flush :: "uint \<times> nat \<times> uint list \<times> uint list \<Rightarrow> uint list" where
  "pack_flush s = (case s of (packbyte, pos, packet, values) \<Rightarrow> values @ [packbyte] @ take pos packet)"

definition pack_step ::
  "uint \<Rightarrow> uint \<times> nat \<times> uint list \<times> uint list \<Rightarrow> uint \<times> nat \<times> uint list \<times> uint list" where
  "pack_step c s =
     (case s of (packbyte, pos, packet, values) \<Rightarrow>
        (let values1 = (if pos = 7 then pack_flush s else values);
             packbyte1 = (if pos = 7 then 0 else packbyte);
             pos1 = (if pos = 7 then 0 else pos);
             packbyte2 = (if c AND 0x80 \<noteq> 0 then packbyte1 + push_bit pos1 1 else packbyte1);
             c2 = (if c AND 0x80 \<noteq> 0 then c AND 0x7f else c)
         in (packbyte2, pos1 + 1, packet[pos1 := c2], values1)))"

fun pack_loop ::
  "uint list \<Rightarrow> uint \<times> nat \<times> uint list \<times> uint list \<Rightarrow> uint \<times> nat \<times> uint list \<times> uint list" where
  "pack_loop [] s = s"
| "pack_loop (c # rest) s =
     (let s' = pack_step c s
      in if length (snd (snd (snd s'))) + 8 > SEQUENTIAL_DATA_MAX then s' else pack_loop rest s')"

definition Seq_pack :: "uint list \<Rightarrow> uint list" where
  "Seq_pack unpacked =
     (let values = pack_flush (pack_loop unpacked (0, 0, replicate 7 0, []))
      in Seq_set (length values) values)"

section \<open>PCM processor (pcm\_proc.h)\<close>

text \<open>
  \<open>pcm_sample_t\<close> is \<open>signed int\<close>. A sample is an \<open>int\<close> in the range of 32 bits;
  the result of an addition, a subtraction or a left shift is wrapped to that range by
  \<open>to_int\<close> (two's complement), and \<open>>>\<close> is the arithmetic shift \<open>drop_bit\<close>. The
  casts to \<open>int16_t\<close> and to \<open>char\<close> wrap in the same way. \<open>pcm_size_t\<close> and
  \<open>pcm_index_t\<close> (\<open>unsigned long\<close>) are natural numbers; \<open>to_ulong\<close> is the
  conversion of an \<open>int\<close> to \<open>unsigned long\<close> (64 bits).

  An array is a function from indices to values: an array argument or a struct's array
  is the memory the code reads, and no function of the header checks an index against
  \<open>PCM_PROC_MAX\<close>. A function that declares an array or a struct without initialising
  it takes the contents that storage happens to have as its first argument \<open>uninit\<close>.

  A division by zero has no result in C; the functions that divide return an option,
  and \<open>None\<close> is the division by zero.
\<close>

type_synonym pcm_sample_t = int
type_synonym byte = "8 word"

definition to_int :: "int \<Rightarrow> int" where
  "to_int x = signed_take_bit 31 x"

definition to_int16 :: "int \<Rightarrow> int" where
  "to_int16 x = signed_take_bit 15 x"

definition to_char :: "int \<Rightarrow> int" where
  "to_char x = signed_take_bit 7 x"

definition to_ulong :: "int \<Rightarrow> nat" where
  "to_ulong x = nat (take_bit 64 x)"

definition PCM_PROC_MAX :: nat where
  "PCM_PROC_MAX = 131072"

definition WAV_CHANNEL_OFFSET :: nat where
  "WAV_CHANNEL_OFFSET = 7"

definition WAV_RESOLUTION_OFFSET :: nat where
  "WAV_RESOLUTION_OFFSET = 19"

record PCMData =
  size_pcm :: nat
  data :: "nat \<Rightarrow> pcm_sample_t"
  channels :: int
  resolution :: int

record WAVMeta =
  data_start :: nat
  data_end :: nat
  samples :: nat
  wav_channels :: int
  wav_resolution :: int

definition new_PCMData :: "(nat \<Rightarrow> pcm_sample_t) \<Rightarrow> PCMData" where
  "new_PCMData uninit = \<lparr>size_pcm = 0, data = uninit, channels = 1, resolution = 16\<rparr>"

text \<open>
  \<open>set_pcm_data\<close>: \<open>pcm->size = size / pcm->channels\<close>, then the first \<open>size\<close>
  entries are copied.
\<close>

definition set_pcm_data :: "PCMData \<Rightarrow> nat \<Rightarrow> (nat \<Rightarrow> pcm_sample_t) \<Rightarrow> PCMData option" where
  "set_pcm_data pcm size_arg d =
     (if channels pcm = 0 then None
      else Some (pcm\<lparr>size_pcm := size_arg div to_ulong (channels pcm),
                      data := (\<lambda>i. if i < size_arg then d i else data pcm i)\<rparr>))"

subsection \<open>get\_wav\_meta\<close>

text \<open>
  The state of the scan: the local variables \<open>channels\<close>, \<open>resolution\<close>, \<open>fcx\<close>,
  \<open>dcx\<close>, \<open>d_st\<close> and \<open>d_end\<close>. The chunk identifiers are arrays of five chars (four
  and the terminating 0); \<open>char b = data[i]\<close> is compared with one of them, which is an
  ASCII code or 0, so the comparison holds when the low byte of \<open>data[i]\<close> is that
  code. Reading an identifier at an index above 4 is outside the array: the scan has
  no result then (\<open>None\<close>).
\<close>

record wav_scan =
  sc_channels :: int
  sc_resolution :: int
  fcx :: nat
  dcx :: nat
  d_st :: nat
  d_end :: nat

definition fcid :: "int list" where
  "fcid = [0x66, 0x6d, 0x74, 0x20, 0]"

definition dcid :: "int list" where
  "dcid = [0x64, 0x61, 0x74, 0x61, 0]"

definition scan_fmt :: "nat \<Rightarrow> (nat \<Rightarrow> pcm_sample_t) \<Rightarrow> nat \<Rightarrow> wav_scan \<Rightarrow> wav_scan option" where
  "scan_fmt size_arg d i s =
     (if 4 < fcx s then None
      else if take_bit 8 (d i) = fcid ! fcx s \<and> sc_channels s = 0 then
        (let s1 = (if fcx s = 3 then
                     s\<lparr>sc_channels := (if i + WAV_CHANNEL_OFFSET < size_arg
                                        then d (i + WAV_CHANNEL_OFFSET) else sc_channels s),
                       sc_resolution := (if i + WAV_RESOLUTION_OFFSET < size_arg
                                          then d (i + WAV_RESOLUTION_OFFSET) else sc_resolution s)\<rparr>
                   else s)
         in Some (s1\<lparr>fcx := fcx s + 1\<rparr>))
      else Some (s\<lparr>fcx := 0\<rparr>))"

definition scan_data :: "(nat \<Rightarrow> pcm_sample_t) \<Rightarrow> nat \<Rightarrow> wav_scan \<Rightarrow> wav_scan option" where
  "scan_data d i s =
     (if 4 < dcx s then None
      else if take_bit 8 (d i) = dcid ! dcx s \<and> d_end s = 0 then
        (let s1 = (if dcx s = 3 then
                     s\<lparr>d_st := i + 5,
                       d_end := to_ulong (int (i + 5) + d (i + 1) + to_int (push_bit 8 (d (i + 2)))
                                          + to_int (push_bit 16 (d (i + 3)))
                                          + to_int (push_bit 24 (d (i + 4))))\<rparr>
                   else s)
         in Some (s1\<lparr>dcx := dcx s + 1\<rparr>))
      else Some (s\<lparr>dcx := 0\<rparr>))"

function scan_loop :: "nat \<Rightarrow> (nat \<Rightarrow> pcm_sample_t) \<Rightarrow> nat \<Rightarrow> wav_scan \<Rightarrow> wav_scan option" where
  "scan_loop size_arg d i s =
     (if i < size_arg then
        (case scan_fmt size_arg d i s of
           None \<Rightarrow> None
         | Some s1 \<Rightarrow>
             (case scan_data d i s1 of
                None \<Rightarrow> None
              | Some s2 \<Rightarrow>
                  if d_st s2 \<noteq> 0 \<and> d_end s2 \<noteq> 0 \<and> sc_channels s2 \<noteq> 0 \<and> sc_resolution s2 \<noteq> 0
                  then Some s2
                  else scan_loop size_arg d (i + 1) s2))
      else Some s)"
  by pat_completeness auto
termination
  by (relation "measure (\<lambda>(size_arg, d, i, s). size_arg - i)") auto

text \<open>
  \<open>get_wav_meta\<close>. When \<open>size\<close> is at most 44 the struct is returned as it was
  declared, uninitialised. \<open>resolution / 8\<close> is the truncating division of C.
\<close>

definition get_wav_meta :: "WAVMeta \<Rightarrow> nat \<Rightarrow> (nat \<Rightarrow> pcm_sample_t) \<Rightarrow> WAVMeta option" where
  "get_wav_meta uninit size_arg d =
     (if size_arg > 44 then
        (case scan_loop size_arg d 0
                \<lparr>sc_channels = 0, sc_resolution = 0, fcx = 0, dcx = 0, d_st = 0, d_end = 0\<rparr> of
           None \<Rightarrow> None
         | Some s \<Rightarrow>
             if sc_resolution s sdiv 8 = 0 then None
             else Some \<lparr>data_start = d_st s, data_end = d_end s,
                        samples = to_ulong (int (d_end s) - int (d_st s)) div to_ulong (sc_resolution s sdiv 8),
                        wav_channels = sc_channels s, wav_resolution = sc_resolution s\<rparr>)
      else Some uninit)"

subsection \<open>pcm\_change\_resolution\<close>

text \<open>
  The body of the loop of \<open>pcm_change_resolution\<close> for one sample, from the current
  resolution \<open>res\<close> to \<open>new_resolution\<close>.
\<close>

definition narrow_sample :: "int \<Rightarrow> int \<Rightarrow> pcm_sample_t \<Rightarrow> pcm_sample_t" where
  "narrow_sample res new_resolution sample0 =
     (let max_v = to_int (to_int (push_bit (nat new_resolution) 1) - 1);
          min_v = to_int (- 1 - max_v);
          sample1 = drop_bit (nat (res - new_resolution - 1)) sample0;
          round_up = (sample1 AND 1 \<noteq> 0 \<and> sample1 \<ge> 0);
          round_dn = (\<not> sample1 AND 1 \<noteq> 0 \<and> sample1 < 0);
          sample2 = drop_bit 1 sample1;
          sample3 = (if round_up \<and> sample2 < max_v then to_int (sample2 + 1) else sample2);
          sample4 = (if round_dn \<and> sample3 > min_v then to_int (sample3 - 1) else sample3)
      in sample4)"

definition change_sample :: "int \<Rightarrow> int \<Rightarrow> pcm_sample_t \<Rightarrow> pcm_sample_t" where
  "change_sample res new_resolution sample0 =
     (let sample1 = (if res = 8 then to_int (sample0 - 128) else sample0);
          sample2 = (if new_resolution < res then narrow_sample res new_resolution sample1 else sample1);
          sample3 = (if new_resolution > res then to_int (push_bit (nat (new_resolution - res)) sample2)
                     else sample2);
          sample4 = (if new_resolution = 8 then to_int (sample3 + 128) AND 0xff else sample3)
      in sample4)"

definition pcm_change_resolution :: "PCMData \<Rightarrow> int \<Rightarrow> PCMData option" where
  "pcm_change_resolution pcm new_resolution0 =
     (let new_resolution = (if new_resolution0 > 32 \<or> new_resolution0 < 8 then resolution pcm
                            else new_resolution0)
      in if resolution pcm \<noteq> new_resolution then
           set_pcm_data (pcm\<lparr>resolution := new_resolution\<rparr>)
             (size_pcm pcm * to_ulong (channels pcm))
             (\<lambda>i. change_sample (resolution pcm) new_resolution (data pcm i))
         else Some pcm)"


subsection \<open>pcm\_change\_size\<close>

text \<open>
  One pass of the loop that doubles the data: the values written to
  \<open>expanded_data\<close>, in order. The mean is taken of the two samples cast to
  \<open>int16_t\<close>, each divided by 2 with the truncating division of C.
\<close>

definition expand_once :: "int \<Rightarrow> (nat \<Rightarrow> pcm_sample_t) \<Rightarrow> nat \<Rightarrow> pcm_sample_t list" where
  "expand_once chans d data_size =
     concat (map (\<lambda>i. concat (map (\<lambda>ch.
        (let dx = i * to_ulong chans + ch;
             nx = dx + to_ulong chans
         in d dx # (if nx < data_size * to_ulong chans
                    then [to_int16 (d dx) sdiv 2 + to_int16 (d nx) sdiv 2] else [])))
        [0..<nat chans])) [0..<data_size])"

text \<open>
  The loop \<open>while (data_size < new_size)\<close>. It need not end (with a negative channel
  count no value is written and \<open>data_size\<close> becomes 0): \<open>None\<close> is the loop that
  does not end.
\<close>

partial_function (option) expand_loop ::
  "int \<Rightarrow> nat \<Rightarrow> (nat \<Rightarrow> pcm_sample_t) \<times> nat \<Rightarrow> ((nat \<Rightarrow> pcm_sample_t) \<times> nat) option" where
  "expand_loop chans new_size st =
     (case st of (d, data_size) \<Rightarrow>
        if data_size < new_size then
          (let expanded_data = expand_once chans d data_size
           in expand_loop chans new_size
                ((\<lambda>i. if i < length expanded_data then expanded_data ! i else d i),
                 length expanded_data div to_ulong chans))
        else Some (d, data_size))"

declare expand_loop.simps [code]

text \<open>
  The type \<open>float\<close> is IEEE 754 binary32: a float is the rational number it
  stands for, and the result of a conversion or of an arithmetic operation is the
  exact result rounded by \<open>f32\<close> to the nearest number with a significand of 24
  bits, a tie going to the even significand. Every operation is rounded on its own
  (no wider intermediate precision, no fused multiply-add). Infinities, NaN and
  subnormal numbers are left out: the sizes and indices of a buffer are far from both
  ends of the exponent range. \<open>pow2 k\<close> is \<open>2^k\<close> for an integer \<open>k\<close>;
  \<open>f32_exponent x\<close> is the \<open>e\<close> with \<open>2^e \<le> |x| < 2^(e+1)\<close>, found from the bit
  lengths of the numerator and the denominator of \<open>x\<close>.
\<close>

definition pow2 :: "int \<Rightarrow> rat" where
  "pow2 k = (if 0 \<le> k then 2 ^ nat k else 1 / 2 ^ nat (- k))"

definition f32_exponent :: "rat \<Rightarrow> int" where
  "f32_exponent x =
     (let e0 = bitlen (fst (quotient_of \<bar>x\<bar>)) - bitlen (snd (quotient_of \<bar>x\<bar>))
      in if pow2 e0 \<le> \<bar>x\<bar> then e0 else e0 - 1)"

definition round_half_even :: "rat \<Rightarrow> int" where
  "round_half_even m =
     (let f = \<lfloor>m\<rfloor>; d = m - of_int f
      in if d < 1 / 2 then f else if 1 / 2 < d then f + 1 else if even f then f else f + 1)"

definition f32 :: "rat \<Rightarrow> rat" where
  "f32 x = (if x = 0 then 0
            else (let u = pow2 (f32_exponent x - 23) in of_int (round_half_even (x / u)) * u))"

text \<open>
  The index \<open>ix = (i * inc * pcm->channels) + ch\<close> with
  \<open>inc = (float) data_size / new_size\<close>: \<open>data_size\<close>, \<open>new_size\<close>, \<open>i\<close>,
  \<open>pcm->channels\<close> and \<open>ch\<close> are converted to \<open>float\<close>, the division, the two
  products and the sum are float operations, and the result is converted to
  \<open>pcm_index_t\<close>, which drops the fraction.
\<close>

definition resample_index :: "nat \<Rightarrow> nat \<Rightarrow> nat \<Rightarrow> int \<Rightarrow> nat \<Rightarrow> nat" where
  "resample_index data_size new_size i chans ch =
     (let inc = f32 (f32 (of_nat data_size) / f32 (of_nat new_size))
      in nat \<lfloor>f32 (f32 (f32 (f32 (of_nat i) * inc) * f32 (of_int chans)) + f32 (of_nat ch))\<rfloor>)"

text \<open>The values written to \<open>resized_data\<close>, in order.\<close>

definition collapse :: "int \<Rightarrow> (nat \<Rightarrow> pcm_sample_t) \<Rightarrow> nat \<Rightarrow> nat \<Rightarrow> pcm_sample_t list" where
  "collapse chans d data_size new_size =
     concat (map (\<lambda>i. map (\<lambda>ch.
        (let ix = resample_index data_size new_size i chans ch;
             ix1 = (if ix \<ge> data_size * to_ulong chans then data_size * to_ulong chans else ix)
         in d ix1))
        [0..<nat chans]) [0..<new_size])"

text \<open>
  \<open>pcm_change_size\<close>. \<open>PCM_PROC_MAX / pcm->channels\<close> is a division of two \<open>int\<close>s,
  compared with and assigned to the \<open>unsigned long\<close> \<open>new_size\<close>. The local array
  \<open>data\<close> is not initialised: only its first \<open>pcm->size\<close> entries are copied from the
  buffer.
\<close>

definition pcm_change_size ::
  "(nat \<Rightarrow> pcm_sample_t) \<Rightarrow> PCMData \<Rightarrow> nat \<Rightarrow> PCMData option" where
  "pcm_change_size uninit pcm new_size0 =
     (if channels pcm = 0 then None
      else
        (let limit = to_ulong (int PCM_PROC_MAX sdiv channels pcm);
             new_size = (if new_size0 > limit then limit else new_size0)
         in if size_pcm pcm > 1 then
              (case expand_loop (channels pcm) new_size
                      ((\<lambda>i. if i < size_pcm pcm then data pcm i else uninit i), size_pcm pcm) of
                 None \<Rightarrow> None
               | Some (d, data_size) \<Rightarrow>
                   (let resized_data = collapse (channels pcm) d data_size new_size
                    in set_pcm_data pcm (length resized_data) (\<lambda>i. resized_data ! i)))
            else Some pcm))"

subsection \<open>pcm\_morph\<close>

text \<open>
  \<open>pcm_morph\<close>. The float arithmetic of one data point,
  \<open>(pcm_sample_t) (start->data[i] + (float) (end->data[i] - start->data[i]) * scale)\<close>,
  is the parameter \<open>morph_point\<close>, applied to the two samples and the scale.
\<close>

definition pcm_morph ::
  "(pcm_sample_t \<Rightarrow> pcm_sample_t \<Rightarrow> 'f \<Rightarrow> pcm_sample_t) \<Rightarrow> (nat \<Rightarrow> pcm_sample_t) \<Rightarrow>
   PCMData \<Rightarrow> PCMData \<Rightarrow> 'f \<Rightarrow> PCMData option" where
  "pcm_morph morph_point uninit start_pcm end_pcm scale =
     (let morphed = new_PCMData uninit;
          pcm_data = (\<lambda>i. morph_point (data start_pcm i) (data end_pcm i) scale)
      in set_pcm_data morphed (size_pcm start_pcm) pcm_data)"

section \<open>Pro 3 wavetables (pro\_wavetable.h)\<close>

definition PRO3_SAMPLE_SIZE :: nat where
  "PRO3_SAMPLE_SIZE = 1024"

definition PRO3_WAVES :: nat where
  "PRO3_WAVES = 16"

record Wavetable =
  ref :: "nat \<Rightarrow> nat \<Rightarrow> pcm_sample_t"
  isset :: "nat \<Rightarrow> int"

definition new_Wavetable :: Wavetable where
  "new_Wavetable = \<lparr>ref = (\<lambda>i j. 0), isset = (\<lambda>i. 0)\<rparr>"

subsection \<open>wavetable\_fill\<close>

text \<open>
  The float arithmetic of one sample of a filled waveform,
  \<open>(pcm_sample_t) (ref[c-1][i] + (float) (ref[n][i] - ref[c-1][i]) * (ix / div))\<close> with
  \<open>ix = t - c + 1\<close> and \<open>div = n - c\<close>, is the parameter \<open>fill_point\<close>, applied to
  \<open>ix\<close>, \<open>div\<close> and the two samples. \<open>fill_wave\<close> is the loop over \<open>i\<close> for one
  target \<open>t\<close>; it reads the waveforms \<open>c - 1\<close> and \<open>n\<close> and writes the waveform \<open>t\<close>,
  which is neither.
\<close>

definition fill_wave ::
  "(int \<Rightarrow> int \<Rightarrow> pcm_sample_t \<Rightarrow> pcm_sample_t \<Rightarrow> pcm_sample_t) \<Rightarrow> nat \<Rightarrow> nat \<Rightarrow> nat \<Rightarrow>
   Wavetable \<Rightarrow> Wavetable" where
  "fill_wave fill_point c n t table =
     table\<lparr>ref := (ref table)
        (t := (\<lambda>i. if i < PRO3_SAMPLE_SIZE
                    then fill_point (int t - int c + 1) (int n - int c) (ref table (c - 1) i) (ref table n i)
                    else ref table t i))\<rparr>"

text \<open>
  The body of the loop over \<open>c\<close>: the loop over \<open>n\<close> stops at the first \<open>n \<ge> c\<close> with
  \<open>isset[n] == 1\<close>, after the loop over \<open>t\<close>.
\<close>

definition fill_from ::
  "(int \<Rightarrow> int \<Rightarrow> pcm_sample_t \<Rightarrow> pcm_sample_t \<Rightarrow> pcm_sample_t) \<Rightarrow> nat \<Rightarrow> Wavetable \<Rightarrow> Wavetable" where
  "fill_from fill_point c table =
     (if isset table c = 0 then
        (case find (\<lambda>n. isset table n = 1) [c..<16] of
           None \<Rightarrow> table
         | Some n \<Rightarrow> fold (fill_wave fill_point c n) [c..<n] table)
      else table)"

definition wavetable_fill ::
  "(int \<Rightarrow> int \<Rightarrow> pcm_sample_t \<Rightarrow> pcm_sample_t \<Rightarrow> pcm_sample_t) \<Rightarrow> Wavetable \<Rightarrow> Wavetable" where
  "wavetable_fill fill_point table =
     (if isset table 0 = 0 then table
      else
        (let table1 =
           (if isset table (PRO3_WAVES - 1) = 0 then
              table\<lparr>ref := (ref table)
                       (PRO3_WAVES - 1 := (\<lambda>i. if i < PRO3_SAMPLE_SIZE then ref table 0 i
                                                else ref table (PRO3_WAVES - 1) i)),
                     isset := (isset table)(PRO3_WAVES - 1 := 1)\<rparr>
            else table)
         in fold (fill_from fill_point) [1..<16] table1))"

subsection \<open>wavetable\_sysex\_dump\<close>

text \<open>
  The standard output is the list of the bytes written so far; \<open>putchar\<close> appends its
  argument converted to \<open>unsigned char\<close>. A C string is the list of its chars before the
  terminating 0.
\<close>

definition putchar :: "int \<Rightarrow> byte list \<Rightarrow> byte list" where
  "putchar c out = out @ [word_of_int c]"

definition Seq_dump :: "uint list \<Rightarrow> byte list \<Rightarrow> byte list" where
  "Seq_dump d out = fold (\<lambda>v. putchar (sint v)) d out"

text \<open>\<open>while (strlen(name) < 8) strcat(name, " ")\<close>\<close>

function pad_name :: "byte list \<Rightarrow> byte list" where
  "pad_name name = (if length name < 8 then pad_name (name @ [0x20]) else name)"
  by pat_completeness auto
termination
  by (relation "measure (\<lambda>name. 8 - length name)") auto

text \<open>\<open>printf("%.8s", name)\<close>\<close>

definition printf_8s :: "byte list \<Rightarrow> byte list \<Rightarrow> byte list" where
  "printf_8s name out = out @ take 8 name"

text \<open>
  One sample of a loop over a waveform: the high and the low byte are appended to
  \<open>pro3_data\<close> and the swapped 16-bit word is added to the checksum. The state is
  \<open>(pro3_data, checksum)\<close>; \<open>dx\<close> is the length of \<open>pro3_data\<close>.
\<close>

definition dump_sample :: "pcm_sample_t \<Rightarrow> uint list \<times> 16 word \<Rightarrow> uint list \<times> 16 word" where
  "dump_sample d st =
     (case st of (pro3_data, checksum) \<Rightarrow>
        (let sample = to_int16 d;
             check = (word_of_int (drop_bit 8 (uint (word_of_int sample :: 16 word))
                                   OR push_bit 8 (uint (word_of_int sample :: 16 word))) :: 16 word)
         in (pro3_data @ [word_of_int (drop_bit 8 sample), word_of_int (sample AND 0xff)],
             checksum + check)))"

definition dump_wave :: "PCMData \<Rightarrow> uint list \<times> 16 word \<Rightarrow> uint list \<times> 16 word" where
  "dump_wave pcm st = fold (\<lambda>i. dump_sample (data pcm i)) [0..<size_pcm pcm] st"

text \<open>The body of the loop over the 16 waveforms.\<close>

definition dump_slot ::
  "(nat \<Rightarrow> pcm_sample_t) \<Rightarrow> Wavetable \<Rightarrow> nat \<Rightarrow> uint list \<times> 16 word \<Rightarrow> (uint list \<times> 16 word) option" where
  "dump_slot uninit table k st0 =
     do {
       pcm0 \<leftarrow> set_pcm_data (new_PCMData uninit) PRO3_SAMPLE_SIZE (ref table k);
       let st1 = dump_wave pcm0 st0;
       pcm1 \<leftarrow> pcm_change_size uninit pcm0 (PRO3_SAMPLE_SIZE div 2);
       let st2 = dump_wave pcm1 st1;
       pcm2 \<leftarrow> pcm_change_size uninit pcm1 (PRO3_SAMPLE_SIZE div 4);
       let st3 = fold (\<lambda>j. dump_wave pcm2) [0..<2] st2;
       pcm3 \<leftarrow> pcm_change_size uninit pcm2 (PRO3_SAMPLE_SIZE div 8);
       let st4 = fold (\<lambda>j. dump_wave pcm3) [0..<8] st3;
       Some st4
     }"

fun dump_slots ::
  "(nat \<Rightarrow> pcm_sample_t) \<Rightarrow> Wavetable \<Rightarrow> nat list \<Rightarrow> uint list \<times> 16 word \<Rightarrow> (uint list \<times> 16 word) option" where
  "dump_slots uninit table [] st = Some st"
| "dump_slots uninit table (k # ks) st =
     (case dump_slot uninit table k st of None \<Rightarrow> None | Some st1 \<Rightarrow> dump_slots uninit table ks st1)"

definition wavetable_sysex_dump ::
  "(nat \<Rightarrow> pcm_sample_t) \<Rightarrow> Wavetable \<Rightarrow> int \<Rightarrow> byte list \<Rightarrow> byte list \<Rightarrow> byte list option" where
  "wavetable_sysex_dump uninit table num name out0 =
     (case dump_slots uninit table [0..<16] ([], 0) of
        None \<Rightarrow> None
      | Some (pro3_data, checksum) \<Rightarrow>
          (let pro3_wavetable = Seq_set (length pro3_data) pro3_data;
               pro3_sysex = Seq_pack pro3_wavetable;
               out1 = putchar 0xf0 out0;
               out2 = putchar 0x01 out1;
               out3 = putchar 0x31 out2;
               out4 = putchar 0x6a out3;
               out5 = putchar 0x6c out4;
               out6 = putchar 0x01 out5;
               out7 = putchar 0x6b out6;
               out8 = putchar num out7;
               out9 = printf_8s (pad_name name) out8;
               out10 = putchar 0x00 out9;
               out11 = Seq_dump pro3_sysex out10;
               out12 = putchar (to_char (uint checksum AND 0x7f)) out11;
               out13 = putchar (to_char (drop_bit 8 (uint checksum)) AND 0x7f) out12;
               out14 = putchar 0xf7 out13
           in Some out14))"

(*END-DEFS*)

(*HELPER-DEFS*)
section \<open>Auxiliary definitions for the proofs\<close>

text \<open>
  The values the loop of \<open>Seq_unpack\<close> appends when it is never cut short by its
  \<open>break\<close>, started with pack byte \<open>pb\<close> at position \<open>pos\<close>.
\<close>

fun unpack_emit :: "uint list \<Rightarrow> uint \<Rightarrow> nat \<Rightarrow> uint list" where
  "unpack_emit [] pb pos = []"
| "unpack_emit (c # rest) pb pos =
     (if pos = 0 then unpack_emit rest c 1
      else (if bit pb (pos - 1) then c OR 0x80 else c) # unpack_emit rest pb ((pos + 1) mod 8))"

text \<open>The value \<open>pack\<close> stores in \<open>packet\<close> for a source value \<open>c\<close>.\<close>

definition strip7 :: "uint \<Rightarrow> uint" where
  "strip7 c = (if bit c 7 then c AND 0x7f else c)"

text \<open>
  What the loop of \<open>pack\<close> and the final flush append to \<open>values\<close> when the loop is
  never cut short by its \<open>break\<close>, started in state \<open>(pb, pos, packet)\<close>.
\<close>

fun pack_emit :: "uint list \<Rightarrow> uint \<Rightarrow> nat \<Rightarrow> uint list \<Rightarrow> uint list" where
  "pack_emit [] pb pos packet = pb # take pos packet"
| "pack_emit (c # rest) pb pos packet =
     (if pos = 7
      then pb # take 7 packet @ pack_emit rest (if bit c 7 then 1 else 0) 1 (packet[0 := strip7 c])
      else pack_emit rest (if bit c 7 then pb + 2 ^ pos else pb) (pos + 1) (packet[pos := strip7 c]))"


text \<open>
  Concrete inputs. \<open>array_of xs\<close> is an array that holds \<open>xs\<close>, followed by zeros.
  \<open>wav_header n\<close> is the canonical 44-byte header of a WAV file of 16-bit mono PCM
  at 44100 Hz whose data chunk has \<open>n\<close> bytes (\<open>n < 220\<close>). \<open>pcm_of res chans xs\<close> is
  the buffer of the interleaved samples \<open>xs\<close>, and \<open>pcm_samples\<close> lists the
  \<open>size * channels\<close> samples of a buffer.
\<close>

definition array_of :: "int list \<Rightarrow> nat \<Rightarrow> int" where
  "array_of xs i = (if i < length xs then xs ! i else 0)"

definition wav_header :: "int \<Rightarrow> int list" where
  "wav_header n =
     [0x52, 0x49, 0x46, 0x46, 36 + n, 0, 0, 0, 0x57, 0x41, 0x56, 0x45,
      0x66, 0x6d, 0x74, 0x20, 16, 0, 0, 0, 1, 0, 1, 0,
      0x44, 0xAC, 0, 0, 0x88, 0x58, 0x01, 0, 2, 0, 16, 0,
      0x64, 0x61, 0x74, 0x61, n, 0, 0, 0]"

definition pcm_of :: "int \<Rightarrow> int \<Rightarrow> int list \<Rightarrow> PCMData" where
  "pcm_of res chans xs =
     \<lparr>size_pcm = length xs div nat chans, data = array_of xs, channels = chans, resolution = res\<rparr>"

definition pcm_samples :: "PCMData \<Rightarrow> int list" where
  "pcm_samples p = map (data p) [0..<size_pcm p * nat (channels p)]"

text \<open>
  A change of resolution to \<open>r\<close> followed by the change back to the resolution the
  buffer had.
\<close>

definition resolution_roundtrip :: "PCMData \<Rightarrow> int \<Rightarrow> PCMData option" where
  "resolution_roundtrip pcm r =
     pcm_change_resolution pcm r \<bind> (\<lambda>q. pcm_change_resolution q (resolution pcm))"

(*END-HELPER-DEFS*)

section \<open>Sequential packing: the loops without their break\<close>

lemma and_7_mod_8: "(n::nat) AND 7 = n mod 8"
proof -
  have "n AND mask 3 = n mod 2 ^ 3" by (simp add: take_bit_eq_mod flip: take_bit_eq_mask)
  moreover have "mask 3 = (7::nat)" by (simp add: mask_eq_exp_minus_1)
  ultimately show ?thesis by simp
qed

lemma test_bit: "(pb AND push_bit k 1 \<noteq> 0) = bit (pb::uint) k"
  by (simp add: bit_iff_and_push_bit_not_eq_0)

lemma unpack_step_eq:
  "unpack_step c (pb, pos, vals) =
     (if pos = 0 then (c, 1, vals)
      else (pb, (pos + 1) mod 8, vals @ [if bit pb (pos - 1) then c OR 0x80 else c]))"
  by (simp add: unpack_step_def and_7_mod_8 and_exp_eq_0_iff_not_bit)


lemma test_bit7: "(c AND 0x80 \<noteq> 0) = bit (c::uint) 7"
  using test_bit[of c 7] by simp
lemma unpack_loop_emit:
  "length vals \<le> SEQUENTIAL_DATA_MAX \<Longrightarrow>
   snd (snd (unpack_loop ys (pb, pos, vals))) =
     take (SEQUENTIAL_DATA_MAX + 1) (vals @ unpack_emit ys pb pos)"
proof (induction ys arbitrary: pb pos vals)
  case Nil
  then show ?case by simp
next
  case (Cons c rest)
  show ?case
  proof (cases "pos = 0")
    case True
    with Cons show ?thesis by (simp add: unpack_step_eq)
  next
    case False
    let ?x = "if bit pb (pos - 1) then c OR 0x80 else c"
    show ?thesis
    proof (cases "length vals = SEQUENTIAL_DATA_MAX")
      case True
      with False show ?thesis by (simp add: unpack_step_eq)
    next
      case F2: False
      with Cons.prems have "length (vals @ [?x]) \<le> SEQUENTIAL_DATA_MAX" by simp
      from Cons.IH[OF this] False F2 Cons.prems show ?thesis
        by (simp add: unpack_step_eq)
    qed
  qed
qed

lemma Seq_unpack_emit: "Seq_unpack ys = take (SEQUENTIAL_DATA_MAX + 1) (unpack_emit ys 0 0)"
proof -
  have "snd (snd (unpack_loop ys (0, 0, []))) = take (SEQUENTIAL_DATA_MAX + 1) ([] @ unpack_emit ys 0 0)"
    by (rule unpack_loop_emit) simp
  then show ?thesis by (cases "unpack_loop ys (0, 0, [])") (simp add: Seq_unpack_def Seq_set_def)
qed

lemma length_unpack_emit:
  "pos < 8 \<Longrightarrow> length (unpack_emit ys pb pos) = length ys - ((length ys + pos + 7) div 8 - (pos + 7) div 8)"
proof (induction ys arbitrary: pb pos)
  case Nil
  then show ?case by simp
next
  case (Cons c rest)
  from Cons.prems have "pos = 0 \<or> pos = 1 \<or> pos = 2 \<or> pos = 3 \<or> pos = 4 \<or> pos = 5 \<or> pos = 6 \<or> pos = 7" by arith
  then show ?case
  proof (elim disjE)
    assume "pos = 0" then show ?thesis using Cons.IH[of 1 c] by simp
  next
    assume "pos = 7" then show ?thesis using Cons.IH[of 0 pb] by simp
  qed (use Cons.IH[of "pos + 1" pb] in \<open>simp; arith\<close>)+
qed

lemma pack_step_eq:
  "pack_step c (pb, pos, packet, vals) =
     (if pos = 7 then ((if bit c 7 then 1 else 0), 1, packet[0 := strip7 c], vals @ pb # take 7 packet)
      else ((if bit c 7 then pb + 2 ^ pos else pb), pos + 1, packet[pos := strip7 c], vals))"
  by (simp add: pack_step_def pack_flush_def Let_def test_bit7 strip7_def)
lemma pack_loop_emit:
  "length packet = 7 \<Longrightarrow> pos \<le> 7 \<Longrightarrow> length vals + 8 \<le> SEQUENTIAL_DATA_MAX \<Longrightarrow>
   pack_flush (pack_loop xs (pb, pos, packet, vals)) =
     vals @ pack_emit (take (8 - pos + 7 * ((SEQUENTIAL_DATA_MAX - 8 - length vals) div 8)) xs) pb pos packet"
proof (induction xs arbitrary: pb pos packet vals)
  case Nil
  then show ?case by (simp add: pack_flush_def)
next
  case (Cons c rest)
  let ?k = "(SEQUENTIAL_DATA_MAX - 8 - length vals) div 8"
  show ?case
  proof (cases "pos = 7")
    case False
    with Cons.prems have p: "pos + 1 \<le> 7" by simp
    have t: "take (8 - pos + 7 * ?k) (c # rest) = c # take (8 - (pos + 1) + 7 * ?k) rest"
      using p by (simp add: take_Cons')
    have l: "length (packet[pos := strip7 c]) = 7" using Cons.prems by simp
    show ?thesis
      unfolding t using Cons.IH[OF l p Cons.prems(3)] False Cons.prems(3)
      by (simp add: pack_step_eq)
  next
    case True
    let ?vals1 = "vals @ pb # take 7 packet"
    have l1: "length ?vals1 = length vals + 8" using Cons.prems by simp
    have l: "length (packet[0 := strip7 c]) = 7" using Cons.prems by simp
    show ?thesis
    proof (cases "length ?vals1 + 8 \<le> SEQUENTIAL_DATA_MAX")
      case le: True
      have k: "?k = Suc ((SEQUENTIAL_DATA_MAX - 8 - length ?vals1) div 8)"
        using le l1 by (simp add: SEQUENTIAL_DATA_MAX_def)
      have t: "take (8 - pos + 7 * ?k) (c # rest)
               = c # take (8 - 1 + 7 * ((SEQUENTIAL_DATA_MAX - 8 - length ?vals1) div 8)) rest"
        unfolding k using True by (simp add: take_Cons')
      have p: "(1::nat) \<le> 7" by simp
      show ?thesis
        unfolding t using Cons.IH[OF l p le] True le
        by (simp add: pack_step_eq)
    next
      case gt: False
      have k: "?k = 0" using gt l1 Cons.prems(3) by (simp add: SEQUENTIAL_DATA_MAX_def)
      show ?thesis unfolding k using True gt
        by (simp add: pack_step_eq pack_flush_def)
    qed
  qed
qed

lemma Seq_pack_emit: "Seq_pack xs = pack_emit (take 112001 xs) 0 0 (replicate 7 0)"
proof -
  have "pack_flush (pack_loop xs (0, 0, replicate 7 0, [])) =
        [] @ pack_emit (take (8 - 0 + 7 * ((SEQUENTIAL_DATA_MAX - 8 - length ([]::uint list)) div 8)) xs) 0 0 (replicate 7 0)"
    by (rule pack_loop_emit) (simp_all add: SEQUENTIAL_DATA_MAX_def)
  then show ?thesis by (simp add: Seq_pack_def Seq_set_def SEQUENTIAL_DATA_MAX_def)
qed

lemma length_pack_emit:
  "length packet = 7 \<Longrightarrow> pos \<le> 7 \<Longrightarrow>
   length (pack_emit xs pb pos packet) = pos + length xs + 1 + ((pos + length xs + 6) div 7 - 1)"
proof (induction xs arbitrary: pb pos packet)
  case Nil
  then show ?case by simp
next
  case (Cons c rest)
  show ?case
  proof (cases "pos = 7")
    case True
    have "length (packet[0 := strip7 c]) = 7" "(1::nat) \<le> 7" using Cons.prems by simp_all
    from Cons.IH[OF this] True Cons.prems show ?thesis by simp
  next
    case False
    have "length (packet[pos := strip7 c]) = 7" "pos + 1 \<le> 7" using Cons.prems False by simp_all
    from Cons.IH[OF this] False Cons.prems show ?thesis by simp
  qed
qed

lemma length_Seq_pack:
  "length (Seq_pack xs) = min (length xs) 112001 + 1 + ((min (length xs) 112001 + 6) div 7 - 1)"
  by (simp add: Seq_pack_emit length_pack_emit)

section \<open>Sequential packing: unpacking what was packed\<close>

lemma restore_top_bit:
  assumes "(c::uint) AND mask (Suc k) = c" "bit c k"
  shows "(c AND mask k) OR 2 ^ k = c"
proof (rule bit_eqI)
  fix n
  have hi: "\<not> bit c n" if "Suc k \<le> n"
  proof
    assume "bit c n"
    then have "bit (c AND mask (Suc k)) n" using assms(1) by simp
    then show False using that by (simp add: bit_simps)
  qed
  show "bit (c AND mask k OR 2 ^ k) n = bit c n"
    using assms(2) hi bit_imp_possible_bit[of c n]
    by (cases "n < k"; cases "n = k") (auto simp: bit_simps)
qed

lemma byte_restore:
  assumes "c \<le> (0xFF::uint)" "bit c 7"
  shows "(c AND 0x7f) OR 0x80 = c"
proof -
  have "c < 2 ^ 8" using assms(1) by (simp add: word_less_nat_alt word_le_nat_alt)
  then have m: "c AND mask (Suc 7) = c" using less_mask_eq[of c 8] by simp
  have e1: "(0x7f::uint) = mask 7" by (simp add: mask_eq_exp_minus_1)
  have e2: "(0x80::uint) = 2 ^ 7" by simp
  show ?thesis
    unfolding e1 e2 by (rule restore_top_bit[OF m assms(2)])
qed

lemma strip7_restore:
  "c \<le> (0xFF::uint) \<Longrightarrow> (if bit c 7 then strip7 c OR 0x80 else strip7 c) = c"
  by (simp add: strip7_def byte_restore)

lemma packbyte_add_bit:
  assumes "\<forall>k\<ge>pos. \<not> bit (pb::uint) k" "pos < 32"
  shows "bit (pb + 2 ^ pos) k = (bit pb k \<or> k = pos)"
proof -
  have "pb + 2 ^ pos = pb OR 2 ^ pos"
    by (rule disjunctive_add) (use assms in \<open>auto simp: bit_simps\<close>)
  then show ?thesis using assms(2) by (auto simp: bit_simps)
qed

lemma unpack_emit_append:
  "1 \<le> pos \<Longrightarrow> pos \<le> 7 \<Longrightarrow> pos + length A \<le> 8 \<Longrightarrow>
   unpack_emit (A @ B) pb pos = unpack_emit A pb pos @ unpack_emit B pb ((pos + length A) mod 8)"
proof (induction A arbitrary: pos)
  case Nil
  then show ?case by simp
next
  case (Cons a A)
  show ?case
  proof (cases "pos = 7")
    case True
    with Cons.prems show ?thesis by simp
  next
    case False
    with Cons.prems have "1 \<le> pos + 1" "pos + 1 \<le> 7" "pos + 1 + length A \<le> 8" "(pos + 1) mod 8 = pos + 1" by simp_all
    with Cons.IH[of "pos + 1"] Cons.prems show ?thesis by simp
  qed
qed

lemma unpack_emit_cong:
  "1 \<le> pos \<Longrightarrow> pos + length A \<le> 8 \<Longrightarrow>
   (\<forall>k. pos - 1 \<le> k \<and> k < pos - 1 + length A \<longrightarrow> bit pb k = bit pb' k) \<Longrightarrow>
   unpack_emit A pb pos = unpack_emit A pb' pos"
proof (induction A arbitrary: pos)
  case Nil
  then show ?case by simp
next
  case (Cons a A)
  show ?case
  proof (cases "A = []")
    case True
    with Cons.prems show ?thesis by simp
  next
    case False
    with Cons.prems have "pos + 1 < 8" by (cases A) simp_all
    with Cons.prems have p: "1 \<le> pos + 1" "pos + 1 + length A \<le> 8" "(pos + 1) mod 8 = pos + 1"
      by simp_all
    have "\<forall>k. pos + 1 - 1 \<le> k \<and> k < pos + 1 - 1 + length A \<longrightarrow> bit pb k = bit pb' k"
      using Cons.prems by auto
    from Cons.IH[OF p(1) p(2) this] Cons.prems p(3) show ?thesis by simp
  qed
qed

lemma unpack_pack_emit:
  "length packet = 7 \<Longrightarrow> pos \<le> 7 \<Longrightarrow> (\<forall>k\<ge>pos. \<not> bit pb k) \<Longrightarrow> (\<forall>c\<in>set xs. c \<le> 0xFF) \<Longrightarrow>
   unpack_emit (pack_emit xs pb pos packet) u 0 = unpack_emit (take pos packet) pb 1 @ xs"
proof (induction xs arbitrary: pb pos packet u)
  case Nil
  then show ?case by simp
next
  case (Cons c rest)
  have c: "c \<le> 0xFF" and rest: "\<forall>c\<in>set rest. c \<le> 0xFF" using Cons.prems(4) by simp_all
  show ?case
  proof (cases "pos = 7")
    case True
    let ?pb' = "if bit c 7 then 1 else 0 :: uint"
    let ?packet' = "packet[0 := strip7 c]"
    have l: "length ?packet' = 7" using Cons.prems by simp
    have b: "\<forall>k\<ge>1. \<not> bit ?pb' k" by (auto simp: bit_simps)
    have ih: "unpack_emit (pack_emit rest ?pb' 1 ?packet') pb 0 = unpack_emit (take 1 ?packet') ?pb' 1 @ rest"
      by (rule Cons.IH[OF l _ b rest]) simp
    have t1: "take 1 ?packet' = [strip7 c]" using Cons.prems(1) by (cases packet) simp_all
    have d: "unpack_emit [strip7 c] ?pb' 1 = [c]" using strip7_restore[OF c] by (simp split: if_splits)
    have "unpack_emit (pack_emit (c # rest) pb pos packet) u 0
          = unpack_emit (packet @ pack_emit rest ?pb' 1 ?packet') pb 1"
      using True Cons.prems(1) by simp
    also have "\<dots> = unpack_emit packet pb 1 @ unpack_emit (pack_emit rest ?pb' 1 ?packet') pb 0"
      using Cons.prems(1) by (simp add: unpack_emit_append)
    also have "\<dots> = unpack_emit (take pos packet) pb 1 @ c # rest"
      using ih t1 d True Cons.prems(1) by simp
    finally show ?thesis .
  next
    case False
    with Cons.prems have p: "pos + 1 \<le> 7" "pos < 32" by simp_all
    let ?pb' = "if bit c 7 then pb + 2 ^ pos else pb"
    let ?packet' = "packet[pos := strip7 c]"
    have l: "length ?packet' = 7" using Cons.prems by simp
    have bits: "bit ?pb' k = (bit pb k \<or> (k = pos \<and> bit c 7))" for k
      using packbyte_add_bit[OF Cons.prems(3) p(2)] by auto
    have b: "\<forall>k\<ge>pos + 1. \<not> bit ?pb' k" using Cons.prems(3) bits by auto
    have ih: "unpack_emit (pack_emit rest ?pb' (pos + 1) ?packet') u 0
              = unpack_emit (take (pos + 1) ?packet') ?pb' 1 @ rest"
      by (rule Cons.IH[OF l p(1) b rest])
    have t: "take (pos + 1) ?packet' = take pos packet @ [strip7 c]"
      using Cons.prems(1) p(1) by (simp add: take_Suc_conv_app_nth)
    have pbpos: "bit ?pb' pos = bit c 7" using bits Cons.prems(3) by auto
    have "unpack_emit (take pos packet @ [strip7 c]) ?pb' 1
          = unpack_emit (take pos packet) ?pb' 1 @ unpack_emit [strip7 c] ?pb' ((1 + pos) mod 8)"
      using p(1) Cons.prems(1) by (subst unpack_emit_append) simp_all
    also have "unpack_emit (take pos packet) ?pb' 1 = unpack_emit (take pos packet) pb 1"
      by (rule unpack_emit_cong) (use p(1) Cons.prems(1) bits in auto)
    also have "unpack_emit [strip7 c] ?pb' ((1 + pos) mod 8) = [c]"
      using p(1) pbpos strip7_restore[OF c] by (simp split: if_splits)
    finally show ?thesis using ih t False by simp
  qed
qed

lemma roundtrip_core:
  assumes "\<forall>c\<in>set xs. c \<le> 0xFF"
  shows "unpack_emit (pack_emit xs 0 0 (replicate 7 0)) 0 0 = xs"
  using unpack_pack_emit[of "replicate 7 0" 0 0 xs 0] assms by simp

section \<open>Sequential packing: the claims\<close>

lemma length_Seq_unpack:
  "length (Seq_unpack ys) = min (length ys - (length ys + 7) div 8) (SEQUENTIAL_DATA_MAX + 1)"
  by (simp add: Seq_unpack_emit length_unpack_emit min.commute)

lemma ceiling_div_7: "nat \<lceil>real n / 7\<rceil> = (n + 6) div 7"
  by linarith

text \<open>
  Claim C1, as amended. For every unpacked sequence \<open>x\<close> of byte values (each at most
  255) whose packed form fits the capacity, that is \<open>ceil(n/7) + n \<le> SEQUENTIAL_DATA_MAX\<close>
  for its length \<open>n\<close> (\<open>n \<le> 112000\<close>), \<open>Seq_unpack (Seq_pack x)\<close> equals \<open>x\<close>
  element for element, whether or not the length is a multiple of 7: the final short
  group round-trips as well.
\<close>

theorem Seq_unpack_pack_roundtrip:
  assumes "\<forall>c\<in>set x. c \<le> 0xFF"
    and "nat \<lceil>real (length x) / 7\<rceil> + length x \<le> SEQUENTIAL_DATA_MAX"
  shows "Seq_unpack (Seq_pack x) = x"
proof -
  from assms(2) have n: "length x \<le> 112000"
    by (simp add: SEQUENTIAL_DATA_MAX_def ceiling_div_7)
  then have p: "Seq_pack x = pack_emit x 0 0 (replicate 7 0)" by (simp add: Seq_pack_emit)
  have "Seq_unpack (Seq_pack x) = take (SEQUENTIAL_DATA_MAX + 1) x"
    unfolding p Seq_unpack_emit using roundtrip_core[OF assms(1)] by simp
  also have "\<dots> = x" using n by (simp add: SEQUENTIAL_DATA_MAX_def)
  finally show ?thesis .
qed

text \<open>
  The theorem at nine byte values, a full group of 7 followed by a short group of 2.
\<close>

theorem Seq_unpack_pack_roundtrip_witness:
  "Seq_unpack (Seq_pack [0x81, 0x02, 0x83, 0x04, 0x85, 0x06, 0x87, 0xFF, 0x7F]) =
     [0x81, 0x02, 0x83, 0x04, 0x85, 0x06, 0x87, 0xFF, 0x7F]"
  by (rule Seq_unpack_pack_roundtrip) (simp_all add: SEQUENTIAL_DATA_MAX_def ceiling_div_7)

text \<open>
  Claim C1 as stated fails for a length that is a multiple of 7 and at most the capacity
  of 128000, but above 112000: 112007 zero bytes. The loop of \<open>pack\<close> leaves at
  \<open>(size + 8) > SEQUENTIAL_DATA_MAX\<close> after the value at index 112000, so only the first
  112001 values are packed and only those come back. (The two last values \<open>pack\<close>
  writes then have the indices 128000 and 128001.)
\<close>

theorem Seq_unpack_pack_counterexample:
  "7 dvd length (replicate 112007 (0::uint)) \<and>
   length (replicate 112007 (0::uint)) \<le> SEQUENTIAL_DATA_MAX \<and>
   set (replicate 112007 (0::uint)) = {0} \<and>
   length (Seq_unpack (Seq_pack (replicate 112007 0))) = 112001 \<and>
   Seq_unpack (Seq_pack (replicate 112007 0)) \<noteq> replicate 112007 0"
proof -
  have l: "length (Seq_unpack (Seq_pack (replicate 112007 0))) = 112001"
    by (simp add: length_Seq_unpack length_Seq_pack SEQUENTIAL_DATA_MAX_def)
  have "Seq_unpack (Seq_pack (replicate 112007 0)) \<noteq> replicate 112007 0"
  proof
    assume "Seq_unpack (Seq_pack (replicate 112007 0)) = replicate 112007 0"
    then have "length (Seq_unpack (Seq_pack (replicate 112007 0))) = 112007"
      by (simp only: length_replicate)
    with l show False by simp
  qed
  with l show ?thesis by (simp add: SEQUENTIAL_DATA_MAX_def)
qed

text \<open>
  Claim C3, as amended. For every unpacked input of \<open>n \<ge> 1\<close> values whose packed result
  is within the capacity, the size of the output of \<open>Seq_pack\<close> is \<open>ceil(n/7) + n\<close>:
  one pack byte per group of up to 7 values, a final short run included.
\<close>

theorem Seq_pack_length:
  assumes "1 \<le> length x"
    and "nat \<lceil>real (length x) / 7\<rceil> + length x \<le> SEQUENTIAL_DATA_MAX"
  shows "length (Seq_pack x) = nat \<lceil>real (length x) / 7\<rceil> + length x"
proof -
  from assms(2) have "length x \<le> 112000"
    by (simp add: SEQUENTIAL_DATA_MAX_def ceiling_div_7)
  with assms(1) show ?thesis
    by (simp add: length_Seq_pack ceiling_div_7)
qed

text \<open>The theorem at eight values: two pack bytes and the eight values.\<close>

theorem Seq_pack_length_witness:
  "length (Seq_pack [1, 2, 3, 4, 5, 6, 7, 8]) = 10"
  using Seq_pack_length [of "[1, 2, 3, 4, 5, 6, 7, 8]"]
  by (simp add: SEQUENTIAL_DATA_MAX_def ceiling_div_7)

text \<open>
  Claim C3 as stated fails at \<open>n = 0\<close>: the flush after the loop is unconditional, so
  the empty input is packed into one pack byte, and the size is 1, not 0.
\<close>

theorem Seq_pack_length_counterexample:
  "Seq_pack [] = [0] \<and>
   length (Seq_pack []) \<noteq> nat \<lceil>real (length ([]::uint list)) / 7\<rceil> + length ([]::uint list)"
  by (simp add: Seq_pack_def pack_flush_def Seq_set_def)





section \<open>get\_wav\_meta\<close>

text \<open>
  Claim C9, as amended. For a 44-byte canonical WAV header describing 16-bit mono PCM
  followed by 8 bytes of PCM data, \<open>get_wav_meta\<close> reports channels = 1,
  resolution = 16 and samples = 4 (8 bytes, 2 bytes per sample); it reports samples = 2
  when the data are the 4 bytes of the two samples \<open>[0, 0]\<close>.
\<close>

theorem get_wav_meta_canonical:
  "get_wav_meta uninit 52 (array_of (wav_header 8 @ [0, 0, 0, 0, 0, 0, 0, 0])) =
     Some \<lparr>data_start = 44, data_end = 52, samples = 4, wav_channels = 1, wav_resolution = 16\<rparr> \<and>
   get_wav_meta uninit 48 (array_of (wav_header 4 @ [0, 0, 0, 0])) =
     Some \<lparr>data_start = 44, data_end = 48, samples = 2, wav_channels = 1, wav_resolution = 16\<rparr>"
  by code_simp

text \<open>
  Claim C9 as stated fails: on the 44-byte header followed by 8 bytes of PCM data the
  sample count is not 2.
\<close>

theorem get_wav_meta_counterexample:
  "length (wav_header 8) = 44 \<and>
   map_option samples (get_wav_meta
      \<lparr>data_start = 0, data_end = 0, samples = 0, wav_channels = 0, wav_resolution = 0\<rparr>
      52 (array_of (wav_header 8 @ [0, 0, 0, 0, 0, 0, 0, 0]))) \<noteq> Some 2"
  by code_simp

section \<open>pcm\_change\_resolution\<close>

lemma to_int_id: "- (2 ^ 31) \<le> x \<Longrightarrow> x < 2 ^ 31 \<Longrightarrow> to_int x = x"
  unfolding to_int_def by (simp add: signed_take_bit_int_eq_self)

lemma and_1_int: "((x::int) AND 1 \<noteq> 0) = odd x"
  by (simp add: and_one_eq mod_2_eq_odd)

lemma and_255_int: "(x::int) AND 255 = x mod 256"
proof -
  have "x AND mask 8 = x mod 2 ^ 8" by (simp add: take_bit_eq_mod flip: take_bit_eq_mask)
  moreover have "mask 8 = (255::int)" by (simp add: mask_eq_exp_minus_1)
  ultimately show ?thesis by simp
qed

lemma up_8_16: "0 \<le> v \<Longrightarrow> v \<le> 255 \<Longrightarrow> change_sample 8 16 v = (v - 128) * 256"
  by (simp add: change_sample_def Let_def to_int_id push_bit_eq_mult)

lemma narrow_16_8: "- 128 \<le> k \<Longrightarrow> k \<le> 127 \<Longrightarrow>
  narrow_sample 16 8 (k * 256) = (if k < 0 then k - 1 else k)"
proof -
  assume k: "- 128 \<le> k" "k \<le> 127"
  have d: "k * 256 div 128 = 2 * k" by simp
  show ?thesis
    using k by (simp add: narrow_sample_def Let_def to_int_id and_1_int push_bit_eq_mult drop_bit_eq_div d)
qed

lemma down_16_8:
  assumes "- 128 \<le> k" "k \<le> 127"
  shows "change_sample 16 8 (k * 256) = (if k < 0 then (k + 127) mod 256 else k + 128)"
proof -
  have "change_sample 16 8 (k * 256) = to_int (narrow_sample 16 8 (k * 256) + 128) AND 0xff"
    by (simp add: change_sample_def Let_def)
  also have "\<dots> = (if k < 0 then k - 1 else k) + 128 AND 0xff"
    using assms by (simp add: narrow_16_8 to_int_id)
  also have "\<dots> = (if k < 0 then (k + 127) mod 256 else k + 128)"
    using assms by (simp add: and_255_int add.commute)
  finally show ?thesis .
qed
lemma rt8:
  assumes "0 \<le> v" "v \<le> 255"
  shows "change_sample 16 8 (change_sample 8 16 v) = (if 128 \<le> v then v else (v - 1) mod 256)"
proof -
  have "change_sample 16 8 (change_sample 8 16 v) = change_sample 16 8 ((v - 128) * 256)"
    using assms by (simp only: up_8_16)
  also have "\<dots> = (if v - 128 < 0 then (v - 128 + 127) mod 256 else v - 128 + 128)"
    using assms by (intro down_16_8) simp_all
  also have "\<dots> = (if 128 \<le> v then v else (v - 1) mod 256)"
    by simp
  finally show ?thesis .
qed

lemma up_16_32: "- 32768 \<le> s \<Longrightarrow> s \<le> 32767 \<Longrightarrow> change_sample 16 32 s = s * 65536"
  by (simp add: change_sample_def Let_def to_int_id push_bit_eq_mult)

lemma narrow_32_16: "- 32768 \<le> s \<Longrightarrow> s \<le> 32767 \<Longrightarrow>
  narrow_sample 32 16 (s * 65536) = (if s < 0 then s - 1 else s)"
proof -
  assume s: "- 32768 \<le> s" "s \<le> 32767"
  have d: "s * 65536 div 32768 = 2 * s" by simp
  show ?thesis
    using s by (simp add: narrow_sample_def Let_def to_int_id and_1_int push_bit_eq_mult drop_bit_eq_div d)
qed

lemma rt16:
  assumes "- 32768 \<le> s" "s \<le> 32767"
  shows "change_sample 32 16 (change_sample 16 32 s) = (if s < 0 then s - 1 else s)"
proof -
  have "change_sample 32 16 (change_sample 16 32 s) = change_sample 32 16 (s * 65536)"
    using assms by (simp only: up_16_32)
  also have "\<dots> = narrow_sample 32 16 (s * 65536)"
    by (simp add: change_sample_def Let_def)
  finally show ?thesis using assms by (simp only: narrow_32_16)
qed

lemma to_ulong_id: "0 \<le> c \<Longrightarrow> c < 2 ^ 31 \<Longrightarrow> to_ulong c = nat c"
proof -
  assume c: "0 \<le> c" "c < 2 ^ 31"
  then have "c < 2 ^ 64" by simp
  with c(1) have "take_bit 64 c = c" by (simp add: take_bit_int_eq_self)
  then show ?thesis by (simp add: to_ulong_def)
qed

lemma pcm_change_resolution_Some:
  assumes "0 < channels pcm" "channels pcm < 2 ^ 31" "8 \<le> r" "r \<le> 32" "resolution pcm \<noteq> r"
  shows "pcm_change_resolution pcm r =
         Some (pcm\<lparr>data := (\<lambda>i. if i < size_pcm pcm * nat (channels pcm)
                                then change_sample (resolution pcm) r (data pcm i) else data pcm i),
                    resolution := r\<rparr>)"
  using assms by (simp add: pcm_change_resolution_def set_pcm_data_def to_ulong_id cong: if_cong)

lemma resolution_roundtrip_Some:
  assumes "0 < channels pcm" "channels pcm < 2 ^ 31" "8 \<le> r" "r \<le> 32" "resolution pcm \<noteq> r"
    "8 \<le> resolution pcm" "resolution pcm \<le> 32"
  shows "resolution_roundtrip pcm r =
         Some (pcm\<lparr>data := (\<lambda>i. if i < size_pcm pcm * nat (channels pcm)
                                then change_sample r (resolution pcm) (change_sample (resolution pcm) r (data pcm i))
                                else data pcm i)\<rparr>)"
proof -
  let ?q = "pcm\<lparr>data := (\<lambda>i. if i < size_pcm pcm * nat (channels pcm)
                                then change_sample (resolution pcm) r (data pcm i) else data pcm i),
                    resolution := r\<rparr>"
  have 1: "pcm_change_resolution pcm r = Some ?q"
    by (rule pcm_change_resolution_Some[OF assms(1-5)])
  have 2: "pcm_change_resolution ?q (resolution pcm) =
           Some (?q\<lparr>data := (\<lambda>i. if i < size_pcm ?q * nat (channels ?q)
                                then change_sample (resolution ?q) (resolution pcm) (data ?q i) else data ?q i),
                    resolution := resolution pcm\<rparr>)"
    by (rule pcm_change_resolution_Some) (use assms in simp_all)
  show ?thesis
    unfolding resolution_roundtrip_def 1 using 2 by (simp add: fun_eq_iff cong: if_cong)
qed

text \<open>
  Claim C4 at the failing inputs. From 16 to 8 bits the largest sample 32767 and the
  sample 32640 (discarded bits \<open>100...0\<close>, already at the maximum 127) are rounded up to
  128, stored as 0, and the smallest sample is stored as 255; from 32 to 16 bits the
  results 32768 and -32769 are outside the range of 16 bits. The bounds of the range
  check are \<open>(1 << new_resolution) - 1\<close> and \<open>-1 - max\<close>.
\<close>

theorem change_resolution_clamp:
  "map_option pcm_samples (pcm_change_resolution (pcm_of 16 1 [32767, 32640, - 32768]) 8) = Some [0, 0, 255] \<and>
   map_option pcm_samples (pcm_change_resolution (pcm_of 32 1 [2147483647, 2147450880, - 2147483648]) 16)
     = Some [32768, 32768, - 32769]"
  by code_simp

text \<open>
  Claim C5, as amended. For a buffer of 8-bit samples, the change to 16 bits and back
  returns size, channels and resolution, and every sample whose stored value is at
  least 128 (a non-negative sample) to its original value; a stored value between 1
  and 127 comes back lowered by 1. For a buffer of 16-bit samples, the change to 32
  bits and back returns every non-negative sample to its original value; a negative
  sample above -32768 comes back lowered by 1. (The round bit of a widened sample is
  clear, and the rule rounds a negative value with a clear round bit down.)
\<close>

theorem change_resolution_roundtrip:
  "(resolution pcm = 8 \<and> 0 < channels pcm \<and> channels pcm < 2 ^ 31 \<and>
    (\<forall>i < size_pcm pcm * nat (channels pcm). 0 \<le> data pcm i \<and> data pcm i \<le> 255) \<longrightarrow>
    (\<exists>p. resolution_roundtrip pcm 16 = Some p \<and>
         size_pcm p = size_pcm pcm \<and> channels p = channels pcm \<and> resolution p = 8 \<and>
         (\<forall>i < size_pcm pcm * nat (channels pcm).
            (128 \<le> data pcm i \<longrightarrow> data p i = data pcm i) \<and>
            (0 < data pcm i \<and> data pcm i < 128 \<longrightarrow> data p i = data pcm i - 1)))) \<and>
   (resolution pcm = 16 \<and> 0 < channels pcm \<and> channels pcm < 2 ^ 31 \<and>
    (\<forall>i < size_pcm pcm * nat (channels pcm). - 32768 \<le> data pcm i \<and> data pcm i \<le> 32767) \<longrightarrow>
    (\<exists>p. resolution_roundtrip pcm 32 = Some p \<and>
         size_pcm p = size_pcm pcm \<and> channels p = channels pcm \<and> resolution p = 16 \<and>
         (\<forall>i < size_pcm pcm * nat (channels pcm).
            (0 \<le> data pcm i \<longrightarrow> data p i = data pcm i) \<and>
            (- 32768 < data pcm i \<and> data pcm i < 0 \<longrightarrow> data p i = data pcm i - 1))))"
proof (intro conjI impI)
  assume a: "resolution pcm = 8 \<and> 0 < channels pcm \<and> channels pcm < 2 ^ 31 \<and>
    (\<forall>i < size_pcm pcm * nat (channels pcm). 0 \<le> data pcm i \<and> data pcm i \<le> 255)"
  then have "resolution_roundtrip pcm 16 =
         Some (pcm\<lparr>data := (\<lambda>i. if i < size_pcm pcm * nat (channels pcm)
                                then change_sample 16 (resolution pcm) (change_sample (resolution pcm) 16 (data pcm i))
                                else data pcm i)\<rparr>)"
    by (intro resolution_roundtrip_Some) simp_all
  with a show "\<exists>p. resolution_roundtrip pcm 16 = Some p \<and>
         size_pcm p = size_pcm pcm \<and> channels p = channels pcm \<and> resolution p = 8 \<and>
         (\<forall>i < size_pcm pcm * nat (channels pcm).
            (128 \<le> data pcm i \<longrightarrow> data p i = data pcm i) \<and>
            (0 < data pcm i \<and> data pcm i < 128 \<longrightarrow> data p i = data pcm i - 1))"
    by (simp add: rt8)
next
  assume a: "resolution pcm = 16 \<and> 0 < channels pcm \<and> channels pcm < 2 ^ 31 \<and>
    (\<forall>i < size_pcm pcm * nat (channels pcm). - 32768 \<le> data pcm i \<and> data pcm i \<le> 32767)"
  then have "resolution_roundtrip pcm 32 =
         Some (pcm\<lparr>data := (\<lambda>i. if i < size_pcm pcm * nat (channels pcm)
                                then change_sample 32 (resolution pcm) (change_sample (resolution pcm) 32 (data pcm i))
                                else data pcm i)\<rparr>)"
    by (intro resolution_roundtrip_Some) simp_all
  with a show "\<exists>p. resolution_roundtrip pcm 32 = Some p \<and>
         size_pcm p = size_pcm pcm \<and> channels p = channels pcm \<and> resolution p = 16 \<and>
         (\<forall>i < size_pcm pcm * nat (channels pcm).
            (0 \<le> data pcm i \<longrightarrow> data p i = data pcm i) \<and>
            (- 32768 < data pcm i \<and> data pcm i < 0 \<longrightarrow> data p i = data pcm i - 1))"
    by (simp add: rt16)
qed

text \<open>The theorem at two buffers of two samples.\<close>

theorem change_resolution_roundtrip_witness:
  "map_option (\<lambda>p. (data p 0, data p 1)) (resolution_roundtrip (pcm_of 8 1 [200, 100]) 16) = Some (200, 99) \<and>
   map_option (\<lambda>p. (data p 0, data p 1)) (resolution_roundtrip (pcm_of 16 2 [32767, - 5]) 32) = Some (32767, - 6)"
proof -
  let ?a = "pcm_of 8 1 [200, 100]"
  let ?b = "pcm_of 16 2 [32767, - 5]"
  have ra: "\<forall>i < size_pcm ?a * nat (channels ?a). 0 \<le> data ?a i \<and> data ?a i \<le> 255"
    by (simp add: pcm_of_def array_of_def nth_Cons')
  have rb: "\<forall>i < size_pcm ?b * nat (channels ?b). - 32768 \<le> data ?b i \<and> data ?b i \<le> 32767"
    by (simp add: pcm_of_def array_of_def nth_Cons')
  from change_resolution_roundtrip[of ?a] ra
  obtain p where p: "resolution_roundtrip ?a 16 = Some p"
    "\<forall>i < size_pcm ?a * nat (channels ?a).
            (128 \<le> data ?a i \<longrightarrow> data p i = data ?a i) \<and>
            (0 < data ?a i \<and> data ?a i < 128 \<longrightarrow> data p i = data ?a i - 1)"
    by (auto simp: pcm_of_def)
  from change_resolution_roundtrip[of ?b] rb
  obtain q where q: "resolution_roundtrip ?b 32 = Some q"
    "\<forall>i < size_pcm ?b * nat (channels ?b).
            (0 \<le> data ?b i \<longrightarrow> data q i = data ?b i) \<and>
            (- 32768 < data ?b i \<and> data ?b i < 0 \<longrightarrow> data q i = data ?b i - 1)"
    by (auto simp: pcm_of_def)
  have "data p 0 = 200" "data p 1 = 99"
    using p(2)[rule_format, of 0] p(2)[rule_format, of 1] by (simp_all add: pcm_of_def array_of_def)
  moreover have "data q 0 = 32767" "data q 1 = - 6"
    using q(2)[rule_format, of 0] q(2)[rule_format, of 1] by (simp_all add: pcm_of_def array_of_def)
  ultimately show ?thesis using p(1) q(1) by simp
qed

text \<open>
  Claim C5 as stated fails on negative samples: the 8-bit sample 100 comes back as 99,
  the 16-bit sample -1 as -2.
\<close>

theorem change_resolution_roundtrip_counterexample:
  "map_option pcm_samples (resolution_roundtrip (pcm_of 8 1 [100]) 16) = Some [99] \<and>
   map_option pcm_samples (resolution_roundtrip (pcm_of 16 1 [- 1]) 32) = Some [- 2]"
  by code_simp

(*CLAIMS*)

end
